theory Spec2Isabelle
  imports Main
begin

section \<open>Data model of RemoteHookProvider.tsx\<close>

text \<open>
  JavaScript functions (notify callbacks, argument listeners, remote hooks) are compared
  by identity only, so they are references of an arbitrary type \<open>'f\<close>; the values the
  provider passes around without looking inside (\<open>any\<close>) are of an arbitrary type \<open>'v\<close>.
  Consumer ids are strings (\<open>crypto.randomUUID()\<close>).
\<close>

type_synonym 'v fields = "string \<rightharpoonup> 'v"

text \<open>
  The \<open>value\<close> of a StateEntry: the number literal written by \<open>subscribe\<close>
  (\<open>value: 0\<close>) or the object built by the spread in \<open>updateState\<close>.
\<close>

datatype 'v any_value = VNum int | VObj "'v fields"

text \<open>
  What the object spread \<open>{...x}\<close> copies: the own enumerable properties of \<open>x\<close>;
  a number has none.
\<close>

fun spread :: "'v any_value \<Rightarrow> 'v fields" where
  "spread (VNum n) = Map.empty"
| "spread (VObj m) = m"

record ('f, 'v) StateEntry =
  id_e :: string
  value_e :: "'v any_value"
  notify :: 'f

text \<open>
  \<open>argNotifiers\<close> is a JavaScript \<open>Set\<close>: no duplicates, iterated in insertion order.
  It is a list without repetition; \<open>set_add\<close> and \<open>set_delete\<close> are \<open>Set.add\<close> and
  \<open>Set.delete\<close>.
\<close>

record ('f, 'v) ArgSubscription =
  id_a :: string
  args :: "'v list"
  argNotifiers :: "'f list"

definition set_add :: "'f \<Rightarrow> 'f list \<Rightarrow> 'f list" where
  "set_add cb cbs = (if cb \<in> set cbs then cbs else cbs @ [cb])"

definition set_delete :: "'f \<Rightarrow> 'f list \<Rightarrow> 'f list" where
  "set_delete cb cbs = removeAll cb cbs"

text \<open>
  What the program does to the outside, in the order in which it happens: the calls of
  callbacks, the console output, and the assignments that land on a member every object
  inherits instead of an entry (\<open>MemberWrite\<close>: the name under which the member was
  found, and which of \<open>value\<close> and \<open>args\<close> was assigned).
\<close>

datatype member_prop = PValue | PArgs

datatype ('f, 'v) event =
    NotifyCall 'f
  | ArgCallback 'f "'v list"
  | HookCall 'f "'v list"
  | ConsoleLog string string
  | ConsoleError 'v
  | MemberWrite string member_prop

text \<open>
  \<open>state\<close> and \<open>argSubscriptions\<close> are plain objects (\<open>{}\<close>) used as dictionaries and
  read with \<open>store[id]\<close>. Such a read finds the property the store itself has under
  that name; failing that, what every object inherits from \<open>Object.prototype\<close> under
  that name, which is truthy and is no entry; and \<open>undefined\<close> otherwise. The inherited
  members are the built-in functions of \<open>inherited_names\<close>, the prototype itself under
  \<open>__proto__\<close>, and what an earlier assignment on the member \<open>__proto__\<close> has put on
  the prototype: an object under \<open>value\<close>, an array under \<open>args\<close>. The own
  properties of a store are a map. The prototype is that of a standard engine, which
  nothing but this program assigns to; none of the members has a \<open>notify\<close> or an
  \<open>argNotifiers\<close> (for the object under \<open>value\<close>: the patches that made it had no
  fields of these names).
\<close>

definition inherited_names :: "string list" where
  "inherited_names =
     [''constructor'', ''__defineGetter__'', ''__defineSetter__'', ''hasOwnProperty'',
      ''__lookupGetter__'', ''__lookupSetter__'', ''isPrototypeOf'', ''propertyIsEnumerable'',
      ''toString'', ''valueOf'', ''__proto__'', ''toLocaleString'']"

definition builtin_member :: "string \<Rightarrow> bool" where
  "builtin_member i = (i \<in> set inherited_names)"

definition inherited :: "('f, 'v) event list \<Rightarrow> string \<Rightarrow> bool" where
  "inherited tr i =
     (builtin_member i \<or>
      (i = ''value'' \<and> MemberWrite ''__proto__'' PValue \<in> set tr) \<or>
      (i = ''args'' \<and> MemberWrite ''__proto__'' PArgs \<in> set tr))"

datatype 'e found = Own 'e | Inherited | Missing

definition js_get :: "('f, 'v) event list \<Rightarrow> (string \<rightharpoonup> 'e) \<Rightarrow> string \<Rightarrow> 'e found" where
  "js_get tr m i =
     (case m i of
        Some e \<Rightarrow> Own e
      | None \<Rightarrow> if inherited tr i then Inherited else Missing)"

text \<open>
  The three stores of one provider instance (\<open>state\<close>, \<open>availableHooks\<close>,
  \<open>argSubscriptions\<close>), each an object keyed by consumer id, and the trace of events.
  \<open>availableHooks\<close> is React state: the functional updates passed to
  \<open>setAvailableHooks\<close> are applied, in the order of the calls, before the provider
  renders again; here each is applied at its call.
\<close>

record ('f, 'v) provider =
  state :: "string \<rightharpoonup> ('f, 'v) StateEntry"
  availableHooks :: "string \<rightharpoonup> 'f"
  argSubscriptions :: "string \<rightharpoonup> ('f, 'v) ArgSubscription"
  trace :: "('f, 'v) event list"

definition empty_provider :: "('f, 'v) provider" where
  "empty_provider =
     \<lparr>state = Map.empty, availableHooks = Map.empty, argSubscriptions = Map.empty, trace = []\<rparr>"

definition stores ::
  "('f, 'v) provider \<Rightarrow>
     (string \<rightharpoonup> ('f, 'v) StateEntry) \<times> (string \<rightharpoonup> 'f) \<times> (string \<rightharpoonup> ('f, 'v) ArgSubscription)"
where
  "stores s = (state s, availableHooks s, argSubscriptions s)"

text \<open>
  How the functions behind the references behave when called. A callback is opaque: it
  returns or throws, and does not call back into the provider while it runs (the
  callbacks of this repository, \<open>forceUpdate\<close> and \<open>setArgs\<close>, only schedule a render).
  \<open>run_notify n\<close> and \<open>run_listener cb a\<close> are \<open>Some e\<close> when the call throws \<open>e\<close>;
  \<open>run_hook h a\<close> is \<open>Inl e\<close> when the remote hook throws \<open>e\<close> and \<open>Inr r\<close> when it
  returns \<open>r\<close>. \<open>type_error\<close> is the \<open>TypeError\<close> the engine throws when the program
  calls what is not a function or reads a property of \<open>undefined\<close>.
\<close>

record ('f, 'v) env =
  run_notify :: "'f \<Rightarrow> 'v option"
  run_listener :: "'f \<Rightarrow> 'v list \<Rightarrow> 'v option"
  run_hook :: "'f \<Rightarrow> 'v list \<Rightarrow> 'v + 'v"
  type_error :: 'v

text \<open>
  \<open>crypto.randomUUID()\<close>: the generator is outside the program. It is a sequence of
  draws and the number of draws made so far. A draw is the text of a version 4 UUID, 36
  characters long, so that the assignment \<open>state[id] = ...\<close> in \<open>subscribe\<close> makes a
  property of the store itself.
\<close>

record crypto =
  draws :: "nat \<Rightarrow> string"
  drawn :: nat

definition randomUUID :: "crypto \<Rightarrow> string \<times> crypto" where
  "randomUUID c = (draws c (drawn c), c\<lparr>drawn := drawn c + 1\<rparr>)"

definition issued :: "crypto \<Rightarrow> string set" where
  "issued c = draws c ` {..<drawn c}"

section \<open>The store operations\<close>

text \<open>
  Every operation returns the exception it throws (\<open>None\<close> when it returns normally)
  and the provider after it; what it changed in the stores before throwing stays changed.
\<close>

definition subscribe ::
  "'f \<Rightarrow> crypto \<Rightarrow> ('f, 'v) provider \<Rightarrow> string \<times> crypto \<times> ('f, 'v) provider" where
  "subscribe n c s =
     (let (i, c') = randomUUID c
      in (i, c', s\<lparr>state := (state s)(i \<mapsto> \<lparr>id_e = i, value_e = VNum 0, notify = n\<rparr>)\<rparr>))"

text \<open>The closure \<open>unsubscribe\<close> returned by \<open>subscribe\<close>, for the id it closes over.\<close>

definition unsubscribe :: "string \<Rightarrow> ('f, 'v) provider \<Rightarrow> ('f, 'v) provider" where
  "unsubscribe i s =
     s\<lparr>state := (state s)(i := None),
       availableHooks := (availableHooks s)(i := None),
       argSubscriptions := (argSubscriptions s)(i := None),
       trace := trace s @ [ConsoleLog ''Unsubscribing id:'' i]\<rparr>"

text \<open>
  \<open>updateState\<close>: \<open>if (!entry) return\<close> leaves only for \<open>undefined\<close>. For an id
  that finds an inherited member and no entry, \<open>entry\<close> is that member: the merged
  value is assigned to its \<open>value\<close>, outside the stores, and \<open>entry.notify()\<close>
  throws the \<open>TypeError\<close>, the member having no \<open>notify\<close>.
\<close>

definition updateState ::
  "('f, 'v) env \<Rightarrow> string \<Rightarrow> 'v any_value \<Rightarrow> ('f, 'v) provider \<Rightarrow> 'v option \<times> ('f, 'v) provider"
where
  "updateState E i v s =
     (case js_get (trace s) (state s) i of
        Missing \<Rightarrow> (None, s)
      | Inherited \<Rightarrow> (Some (type_error E), s\<lparr>trace := trace s @ [MemberWrite i PValue]\<rparr>)
      | Own entry \<Rightarrow>
          (let entry' = entry\<lparr>value_e := VObj (spread (value_e entry) ++ spread v)\<rparr>
           in (run_notify E (notify entry'),
               s\<lparr>state := (state s)(i \<mapsto> entry'),
                 trace := trace s @ [NotifyCall (notify entry')]\<rparr>)))"

text \<open>
  \<open>getState\<close>: \<open>state[id]?.value\<close>. For an id that finds an inherited member and no
  entry this reads \<open>value\<close> on that member. The built-in members have none, so the
  read is \<open>undefined\<close>; what a \<open>MemberWrite\<close> has assigned there is outside the stores
  and its content is not followed here.
\<close>

definition getState :: "string \<Rightarrow> ('f, 'v) provider \<Rightarrow> 'v any_value option" where
  "getState i s = map_option value_e (state s i)"

definition registerHook :: "string \<Rightarrow> 'f \<Rightarrow> ('f, 'v) provider \<Rightarrow> ('f, 'v) provider" where
  "registerHook i hookFunction s =
     s\<lparr>availableHooks := (availableHooks s)(i \<mapsto> hookFunction),
       trace := trace s @ [ConsoleLog ''Registering hook for id:'' i]\<rparr>"

text \<open>
  The body of the \<open>forEach\<close> in \<open>updateArgs\<close>: the listener is called inside
  \<open>try\<close>; what it throws goes to the \<open>catch\<close> block, which passes it to
  \<open>console.error\<close> and throws nothing.
\<close>

definition notify_listener ::
  "('f, 'v) env \<Rightarrow> 'f \<Rightarrow> 'v list \<Rightarrow> 'v option \<times> ('f, 'v) event list" where
  "notify_listener E callback a =
     (case run_listener E callback a of
        None \<Rightarrow> (None, [ArgCallback callback a])
      | Some err \<Rightarrow> (None, [ArgCallback callback a, ConsoleError err]))"

text \<open>
  \<open>argNotifiers.forEach\<close>: the listeners in insertion order; an exception leaving the
  body would end the iteration and leave \<open>updateArgs\<close>.
\<close>

fun broadcast ::
  "('f, 'v) env \<Rightarrow> 'f list \<Rightarrow> 'v list \<Rightarrow> 'v option \<times> ('f, 'v) event list" where
  "broadcast E [] a = (None, [])"
| "broadcast E (cb # cbs) a =
     (case notify_listener E cb a of
        (Some err, es) \<Rightarrow> (Some err, es)
      | (None, es) \<Rightarrow> (let (r, es') = broadcast E cbs a in (r, es @ es')))"

text \<open>
  \<open>updateArgs\<close>. For an id that finds an inherited member and no ArgSubscription,
  \<open>!argSubscriptions[id]\<close> is false: nothing is created, \<open>args\<close> is assigned on the
  member, outside the stores, and \<open>argNotifiers.forEach\<close>, which is not inside the
  \<open>try\<close>, throws the \<open>TypeError\<close>, the member having no \<open>argNotifiers\<close>.
\<close>

definition updateArgs ::
  "('f, 'v) env \<Rightarrow> string \<Rightarrow> 'v list \<Rightarrow> ('f, 'v) provider \<Rightarrow> 'v option \<times> ('f, 'v) provider"
where
  "updateArgs E i a s =
     (case js_get (trace s) (argSubscriptions s) i of
        Inherited \<Rightarrow> (Some (type_error E), s\<lparr>trace := trace s @ [MemberWrite i PArgs]\<rparr>)
      | Missing \<Rightarrow>
          (let sub = \<lparr>id_a = i, args = a, argNotifiers = []\<rparr>;
               (r, es) = broadcast E (argNotifiers sub) a
           in (r, s\<lparr>argSubscriptions := (argSubscriptions s)(i \<mapsto> sub),
                    trace := trace s @ es\<rparr>))
      | Own sub0 \<Rightarrow>
          (let sub = sub0\<lparr>args := a\<rparr>;
               (r, es) = broadcast E (argNotifiers sub) a
           in (r, s\<lparr>argSubscriptions := (argSubscriptions s)(i \<mapsto> sub),
                    trace := trace s @ es\<rparr>)))"

text \<open>
  \<open>subscribeToArgs\<close>: \<open>register_listener\<close> is what follows the first \<open>if\<close>, on the
  ArgSubscription the store then has for the id. For an id that finds an inherited
  member and no ArgSubscription nothing is created either, and \<open>argNotifiers.add\<close>
  throws the \<open>TypeError\<close> before the callback is registered.
\<close>

definition register_listener ::
  "('f, 'v) env \<Rightarrow> string \<Rightarrow> 'f \<Rightarrow> ('f, 'v) ArgSubscription \<Rightarrow> ('f, 'v) provider \<Rightarrow>
     'v option \<times> ('f, 'v) provider"
where
  "register_listener E i callback sub0 s =
     (let sub1 = sub0\<lparr>argNotifiers := set_add callback (argNotifiers sub0)\<rparr>;
          s1 = s\<lparr>argSubscriptions := (argSubscriptions s)(i \<mapsto> sub1)\<rparr>
      in if length (args sub1) > 0
         then (run_listener E callback (args sub1),
               s1\<lparr>trace := trace s1 @ [ArgCallback callback (args sub1)]\<rparr>)
         else (None, s1))"

definition subscribeToArgs ::
  "('f, 'v) env \<Rightarrow> string \<Rightarrow> 'f \<Rightarrow> ('f, 'v) provider \<Rightarrow> 'v option \<times> ('f, 'v) provider"
where
  "subscribeToArgs E i callback s =
     (case js_get (trace s) (argSubscriptions s) i of
        Inherited \<Rightarrow> (Some (type_error E), s)
      | Missing \<Rightarrow>
          register_listener E i callback \<lparr>id_a = i, args = [], argNotifiers = []\<rparr> s
      | Own sub \<Rightarrow> register_listener E i callback sub s)"

text \<open>
  The closure returned by \<open>subscribeToArgs\<close>, for the id and callback it closes over:
  \<open>argSubscriptions[id]?.argNotifiers.delete(callback)\<close>. The \<open>?.\<close> covers
  \<open>undefined\<close> only; on an inherited member \<open>argNotifiers.delete\<close> throws.
\<close>

definition unsubscribeFromArgs ::
  "('f, 'v) env \<Rightarrow> string \<Rightarrow> 'f \<Rightarrow> ('f, 'v) provider \<Rightarrow> 'v option \<times> ('f, 'v) provider"
where
  "unsubscribeFromArgs E i callback s =
     (case js_get (trace s) (argSubscriptions s) i of
        Missing \<Rightarrow> (None, s)
      | Inherited \<Rightarrow> (Some (type_error E), s)
      | Own sub \<Rightarrow>
          (None,
           s\<lparr>argSubscriptions :=
               (argSubscriptions s)
                 (i \<mapsto> sub\<lparr>argNotifiers := set_delete callback (argNotifiers sub)\<rparr>)\<rparr>))"

section \<open>Sequences of store operations\<close>

text \<open>
  One call of an operation the provider hands to its descendants (the closures returned
  by \<open>subscribe\<close> and \<open>subscribeToArgs\<close> included), and the provider after a sequence
  of such calls. An exception thrown by a callback ends the call, not the sequence.
\<close>

datatype ('f, 'v) op =
    Subscribe 'f
  | Unsubscribe string
  | UpdateState string "'v any_value"
  | RegisterHook string 'f
  | UpdateArgs string "'v list"
  | SubscribeToArgs string 'f
  | UnsubscribeFromArgs string 'f

fun step ::
  "('f, 'v) env \<Rightarrow> ('f, 'v) op \<Rightarrow> crypto \<times> ('f, 'v) provider \<Rightarrow> crypto \<times> ('f, 'v) provider"
where
  "step E (Subscribe n) (c, s) = snd (subscribe n c s)"
| "step E (Unsubscribe i) (c, s) = (c, unsubscribe i s)"
| "step E (UpdateState i v) (c, s) = (c, snd (updateState E i v s))"
| "step E (RegisterHook i h) (c, s) = (c, registerHook i h s)"
| "step E (UpdateArgs i a) (c, s) = (c, snd (updateArgs E i a s))"
| "step E (SubscribeToArgs i cb) (c, s) = (c, snd (subscribeToArgs E i cb s))"
| "step E (UnsubscribeFromArgs i cb) (c, s) = (c, snd (unsubscribeFromArgs E i cb s))"

fun run ::
  "('f, 'v) env \<Rightarrow> ('f, 'v) op list \<Rightarrow> crypto \<times> ('f, 'v) provider \<Rightarrow> crypto \<times> ('f, 'v) provider"
where
  "run E [] w = w"
| "run E (x # xs) w = run E xs (step E x w)"

text \<open>
  A sequence in which \<open>registerHook\<close> is only called for an id that has a StateEntry at
  that moment, which is how the consumer hook calls it (under its still-mounted flag).
\<close>

fun allowed :: "('f, 'v) op \<Rightarrow> ('f, 'v) provider \<Rightarrow> bool" where
  "allowed (RegisterHook i h) s = (state s i \<noteq> None)"
| "allowed x s = True"

fun guarded :: "('f, 'v) env \<Rightarrow> ('f, 'v) op list \<Rightarrow> crypto \<times> ('f, 'v) provider \<Rightarrow> bool" where
  "guarded E [] w = True"
| "guarded E (x # xs) w = (allowed x (snd w) \<and> guarded E xs (step E x w))"

fun registers :: "string \<Rightarrow> ('f, 'v) op \<Rightarrow> bool" where
  "registers i (RegisterHook j h) = (i = j)"
| "registers i x = False"

section \<open>The execution unit\<close>



datatype react_node = Null | Element string







section \<open>The consumer hook\<close>

text \<open>
  The values the consumer hook writes and compares. Objects and functions are
  references; numbers are the integers and \<open>NaN\<close>.
\<close>

datatype jsval = JUndefined | JNull | JBool bool | JNum int | JNaN | JStr string | JRef nat

text \<open>The operator \<open>!==\<close>: \<open>NaN\<close> differs from every value, itself included.\<close>

definition strict_neq :: "jsval \<Rightarrow> jsval \<Rightarrow> bool" where
  "strict_neq a b = (a = JNaN \<or> b = JNaN \<or> a \<noteq> b)"

text \<open>Reading an array at an index: \<open>undefined\<close> beyond its end.\<close>

definition js_index :: "jsval list \<Rightarrow> nat \<Rightarrow> jsval" where
  "js_index xs k = (if k < length xs then xs ! k else JUndefined)"

record consumer =
  id_c :: string
  isMounted :: bool

datatype 'f settled = Resolved 'f | Rejected jsval

text \<open>
  Modelled from the spec: \<open>useRemoteHook\<close>, whose file (\<open>src/useRemoteHook.ts\<close>,
  imported by the components) is not among the sources. The definitions follow section
  4.5 of the specification (Idle to Loading, Loading to Ready, Loading to Failed,
  Teardown) in the shape of the listing "Hook Lifecycle" of README.md: \<open>mount\<close> is the
  effect up to the start of the load, \<open>loadHook_settled\<close> is what \<open>loadHook\<close> does
  once the promise of \<open>getModule\<close> has settled, with the \<open>catch\<close> block of the listing
  as \<open>loadHook_catch\<close>, and \<open>cleanup\<close> is the function the effect returns.
\<close>

definition mount ::
  "('f, jsval) env \<Rightarrow> 'f \<Rightarrow> crypto \<Rightarrow> ('f, jsval) provider \<Rightarrow>
     jsval option \<times> consumer \<times> crypto \<times> ('f, jsval) provider"
where
  "mount E forceUpdate c s =
     (let (i, c', s1) = subscribe forceUpdate c s;
          (r, s2) = updateState E i (VObj [''loading'' \<mapsto> JBool True, ''error'' \<mapsto> JNull]) s1
      in (r, \<lparr>id_c = i, isMounted = True\<rparr>, c', s2))"

text \<open>
  Modelled from the spec: the \<open>catch\<close> block of \<open>loadHook\<close> in \<open>useRemoteHook\<close>
  (Loading to Failed): if still mounted, mark \<open>{loading: false, error}\<close>.
\<close>

definition loadHook_catch ::
  "('f, jsval) env \<Rightarrow> consumer \<Rightarrow> jsval \<Rightarrow> ('f, jsval) provider \<Rightarrow>
     jsval option \<times> ('f, jsval) provider"
where
  "loadHook_catch E k err s =
     (if isMounted k
      then updateState E (id_c k) (VObj [''loading'' \<mapsto> JBool False, ''error'' \<mapsto> err]) s
      else (None, s))"

text \<open>
  Modelled from the spec: \<open>loadHook\<close> of \<open>useRemoteHook\<close> from the moment the promise
  settles (Loading to Ready, Loading to Failed). On resolution, only if still mounted:
  mark \<open>{loading: false, error: null}\<close>, push the initial arguments, register the
  hook; what these throw goes to the \<open>catch\<close> block. On rejection: the \<open>catch\<close> block.
\<close>

definition loadHook_settled ::
  "('f, jsval) env \<Rightarrow> consumer \<Rightarrow> jsval list \<Rightarrow> 'f settled \<Rightarrow> ('f, jsval) provider \<Rightarrow>
     jsval option \<times> ('f, jsval) provider"
where
  "loadHook_settled E k a outcome s =
     (case outcome of
        Resolved hookFunction \<Rightarrow>
          (if isMounted k
           then (case updateState E (id_c k)
                        (VObj [''loading'' \<mapsto> JBool False, ''error'' \<mapsto> JNull]) s of
                   (Some err, s1) \<Rightarrow> loadHook_catch E k err s1
                 | (None, s1) \<Rightarrow>
                     (case updateArgs E (id_c k) a s1 of
                        (Some err, s2) \<Rightarrow> loadHook_catch E k err s2
                      | (None, s2) \<Rightarrow> (None, registerHook (id_c k) hookFunction s2)))
           else (None, s))
      | Rejected err \<Rightarrow> loadHook_catch E k err s)"

text \<open>
  Modelled from the spec: the teardown of \<open>useRemoteHook\<close>: clear the still-mounted
  flag, then call \<open>unsubscribe\<close>.
\<close>

definition cleanup :: "consumer \<Rightarrow> ('f, jsval) provider \<Rightarrow> consumer \<times> ('f, jsval) provider" where
  "cleanup k s = (k\<lparr>isMounted := False\<rparr>, unsubscribe (id_c k) s)"

text \<open>
  Modelled from the spec: the argument propagation of \<open>useRemoteHook\<close> (same missing
  file), after section 4.5 of the specification and the listing "Argument Change
  Detection" of README.md: the new sequence is compared with the last forwarded one,
  \<open>argsRef.current\<close>, by length and then position by position with \<open>!==\<close>, and is
  forwarded and remembered only when it differs. The result is the new
  \<open>argsRef.current\<close>, the argument of each \<open>updateArgs\<close> call made, and the provider.
\<close>

definition hasChanged :: "jsval list \<Rightarrow> jsval list \<Rightarrow> bool" where
  "hasChanged a ref =
     (length a \<noteq> length ref \<or>
      list_ex (\<lambda>(arg, index). strict_neq arg (js_index ref index)) (zip a [0..<length a]))"

text \<open>
  Modelled from the spec: the guarded forwarding in \<open>useRemoteHook\<close>: when the sequence
  has changed it becomes \<open>argsRef.current\<close> and is passed to \<open>updateArgs\<close>.
\<close>

definition forward_args ::
  "('f, jsval) env \<Rightarrow> string \<Rightarrow> jsval list \<Rightarrow> jsval list \<Rightarrow> ('f, jsval) provider \<Rightarrow>
     jsval list \<times> jsval list list \<times> ('f, jsval) provider"
where
  "forward_args E i a ref s =
     (if hasChanged a ref then (a, [a], snd (updateArgs E i a s)) else (ref, [], s))"

section \<open>Observations and example values\<close>




text \<open>Every entry is stored under the id it carries.\<close>

definition keyed :: "('f, 'v) provider \<Rightarrow> bool" where
  "keyed s =
     ((\<forall>i e. state s i = Some e \<longrightarrow> id_e e = i) \<and>
      (\<forall>i sub. argSubscriptions s i = Some sub \<longrightarrow> id_a sub = i))"

definition hooks_have_entry :: "('f, 'v) provider \<Rightarrow> bool" where
  "hooks_have_entry s = (dom (availableHooks s) \<subseteq> dom (state s))"

text \<open>
  Example surroundings: callbacks that return normally and a remote hook that returns its
  first argument (\<open>d\<close> when it is called without one), with \<open>d\<close> also standing for
  the \<open>TypeError\<close>; the same with listener \<open>1\<close>
  throwing; a generator whose draws are written \<open>u\<close>, \<open>uu\<close>, \<open>uuu\<close> and so on, for
  short; a generator that returns \<open>u\<close> at every draw; a provider with one freshly
  subscribed consumer \<open>u\<close>.
\<close>

definition pass_through :: "'v \<Rightarrow> (nat, 'v) env" where
  "pass_through d =
     \<lparr>run_notify = (\<lambda>n. None),
      run_listener = (\<lambda>cb a. None),
      run_hook = (\<lambda>h a. Inr (case a of [] \<Rightarrow> d | v # vs \<Rightarrow> v)),
      type_error = d\<rparr>"


definition u_crypto :: crypto where
  "u_crypto = \<lparr>draws = (\<lambda>n. replicate (Suc n) CHR ''u''), drawn = 0\<rparr>"

definition stuck_crypto :: crypto where
  "stuck_crypto = \<lparr>draws = (\<lambda>n. ''u''), drawn = 0\<rparr>"

definition one_consumer :: "(nat, 'v) provider" where
  "one_consumer = snd (snd (subscribe 0 u_crypto empty_provider))"

section \<open>Frame and helper lemmas\<close>

lemma js_get_Own: "js_get tr m i = Own e \<longleftrightarrow> m i = Some e"
  by (simp add: js_get_def split: option.split)

lemma js_get_Missing: "js_get tr m i = Missing \<longleftrightarrow> m i = None \<and> \<not> inherited tr i"
  by (simp add: js_get_def split: option.split)



lemma notify_listener_caught: "fst (notify_listener E cb a) = None"
  by (simp add: notify_listener_def split: option.split)










lemma availableHooks_frame:
  "availableHooks (snd (snd (subscribe n c s))) = availableHooks s"
  "availableHooks (snd (updateState E i v s)) = availableHooks s"
  "availableHooks (snd (updateArgs E i a s)) = availableHooks s"
  "availableHooks (snd (subscribeToArgs E i cb s)) = availableHooks s"
  "availableHooks (snd (unsubscribeFromArgs E i cb s)) = availableHooks s"
  "availableHooks (unsubscribe i s) = (availableHooks s)(i := None)"
  "availableHooks (registerHook i h s) = (availableHooks s)(i \<mapsto> h)"
  by (simp_all add: subscribe_def randomUUID_def updateState_def updateArgs_def
        subscribeToArgs_def register_listener_def unsubscribeFromArgs_def unsubscribe_def
        registerHook_def Let_def
      split: found.split prod.split)

lemma state_dom_frame:
  "dom (state (snd (snd (subscribe n c s)))) = insert (fst (subscribe n c s)) (dom (state s))"
  "dom (state (snd (updateState E i v s))) = dom (state s)"
  "state (snd (updateArgs E i a s)) = state s"
  "state (snd (subscribeToArgs E i cb s)) = state s"
  "state (snd (unsubscribeFromArgs E i cb s)) = state s"
  "state (unsubscribe i s) = (state s)(i := None)"
  "state (registerHook i h s) = state s"
  by (auto simp: subscribe_def randomUUID_def updateState_def updateArgs_def
        subscribeToArgs_def register_listener_def unsubscribeFromArgs_def unsubscribe_def
        registerHook_def Let_def js_get_Own
      split: found.split prod.split)

lemma getState_updateState:
  "getState i (snd (updateState E i v s)) =
     map_option (\<lambda>e. VObj (spread (value_e e) ++ spread v)) (state s i)"
  by (cases "state s i") (simp_all add: getState_def updateState_def js_get_def)

subsection \<open>Invariants of the stores\<close>

lemma keyed_subscribe: "keyed s \<Longrightarrow> keyed (snd (snd (subscribe n c s)))"
  by (simp add: keyed_def subscribe_def randomUUID_def)

lemma keyed_unsubscribe: "keyed s \<Longrightarrow> keyed (unsubscribe i s)"
  by (simp add: keyed_def unsubscribe_def)

lemma keyed_updateState: "keyed s \<Longrightarrow> keyed (snd (updateState E i v s))"
  by (cases "state s i") (simp_all add: keyed_def updateState_def js_get_def)

lemma keyed_registerHook: "keyed s \<Longrightarrow> keyed (registerHook i h s)"
  by (simp add: keyed_def registerHook_def)

lemma keyed_updateArgs: "keyed s \<Longrightarrow> keyed (snd (updateArgs E i a s))"
  by (cases "argSubscriptions s i")
     (simp_all add: keyed_def updateArgs_def js_get_def split: prod.split)

lemma keyed_subscribeToArgs: "keyed s \<Longrightarrow> keyed (snd (subscribeToArgs E i cb s))"
  by (cases "argSubscriptions s i")
     (simp_all add: keyed_def subscribeToArgs_def register_listener_def js_get_def Let_def)

lemma keyed_unsubscribeFromArgs: "keyed s \<Longrightarrow> keyed (snd (unsubscribeFromArgs E i cb s))"
  by (cases "argSubscriptions s i")
     (simp_all add: keyed_def unsubscribeFromArgs_def js_get_def)

lemma step_keyed: "keyed (snd w) \<Longrightarrow> keyed (snd (step E x w))"
proof (cases w)
  case (Pair c s)
  assume k: "keyed (snd w)"
  show ?thesis
    using k unfolding Pair
    by (cases x)
       (simp_all add: keyed_subscribe keyed_unsubscribe keyed_updateState keyed_registerHook
          keyed_updateArgs keyed_subscribeToArgs keyed_unsubscribeFromArgs)
qed

lemma step_hooks_have_entry:
  "hooks_have_entry (snd w) \<Longrightarrow> allowed x (snd w) \<Longrightarrow> hooks_have_entry (snd (step E x w))"
proof (cases w)
  case (Pair c s)
  assume h: "hooks_have_entry (snd w)" and a: "allowed x (snd w)"
  show ?thesis
    using h a unfolding Pair
    by (cases x) (auto simp: hooks_have_entry_def availableHooks_frame state_dom_frame)
qed

lemma run_keyed: "keyed (snd w) \<Longrightarrow> keyed (snd (run E xs w))"
  by (induction xs arbitrary: w) (simp_all add: step_keyed)

lemma run_hooks_have_entry:
  "hooks_have_entry (snd w) \<Longrightarrow> guarded E xs w \<Longrightarrow> hooks_have_entry (snd (run E xs w))"
  by (induction xs arbitrary: w) (simp_all add: step_hooks_have_entry)

lemma keyed_unique_state:
  assumes "keyed s" and "e \<in> ran (state s)" and "e' \<in> ran (state s)" and "id_e e = id_e e'"
  shows "e = e'"
proof -
  obtain i where i: "state s i = Some e" using assms(2) by (auto simp: ran_def)
  obtain j where j: "state s j = Some e'" using assms(3) by (auto simp: ran_def)
  have "id_e e = i" and "id_e e' = j" using assms(1) i j by (simp_all add: keyed_def)
  then have "i = j" using assms(4) by simp
  with i j show ?thesis by simp
qed

lemma keyed_unique_args:
  assumes "keyed s" and "b \<in> ran (argSubscriptions s)" and "b' \<in> ran (argSubscriptions s)"
    and "id_a b = id_a b'"
  shows "b = b'"
proof -
  obtain i where i: "argSubscriptions s i = Some b" using assms(2) by (auto simp: ran_def)
  obtain j where j: "argSubscriptions s j = Some b'" using assms(3) by (auto simp: ran_def)
  have "id_a b = i" and "id_a b' = j" using assms(1) i j by (simp_all add: keyed_def)
  then have "i = j" using assms(4) by simp
  with i j show ?thesis by simp
qed

lemma step_keeps_unregistered:
  "availableHooks (snd w) i = None \<Longrightarrow> \<not> registers i x \<Longrightarrow>
     availableHooks (snd (step E x w)) i = None"
proof (cases w)
  case (Pair c s)
  assume h: "availableHooks (snd w) i = None" and a: "\<not> registers i x"
  show ?thesis
    using h a unfolding Pair
    by (cases x) (auto simp: availableHooks_frame)
qed

lemma run_keeps_unregistered:
  "availableHooks (snd w) i = None \<Longrightarrow> \<forall>x \<in> set xs. \<not> registers i x \<Longrightarrow>
     availableHooks (snd (run E xs w)) i = None"
  by (induction xs arbitrary: w) (simp_all add: step_keeps_unregistered)

subsection \<open>The consumer hook\<close>

lemma mount_consumer:
  "fst (snd (mount E fu c s)) = \<lparr>id_c = fst (randomUUID c), isMounted = True\<rparr>"
  by (simp add: mount_def subscribe_def randomUUID_def split: prod.split)

lemma settled_unmounted: "\<not> isMounted k \<Longrightarrow> loadHook_settled E k a outcome t = (None, t)"
  by (cases outcome) (simp_all add: loadHook_settled_def loadHook_catch_def)

lemma cleanup_facts:
  "isMounted (fst (cleanup k s)) = False"
  "id_c (fst (cleanup k s)) = id_c k"
  "availableHooks (snd (cleanup k s)) (id_c k) = None"
  by (simp_all add: cleanup_def unsubscribe_def)

lemma list_ex_zip_upt:
  "list_ex (\<lambda>(x, k). P x k) (zip a [0..<length a]) \<longleftrightarrow> (\<exists>k < length a. P (a ! k) k)"
proof
  assume "list_ex (\<lambda>(x, k). P x k) (zip a [0..<length a])"
  then obtain x k where "(x, k) \<in> set (zip a [0..<length a])" and p: "P x k"
    by (auto simp: list_ex_iff)
  then obtain j where "x = a ! j" and "k = [0..<length a] ! j" and "j < length a"
    by (auto simp: set_zip)
  with p show "\<exists>k < length a. P (a ! k) k" by auto
next
  assume "\<exists>k < length a. P (a ! k) k"
  then obtain k where k: "k < length a" and p: "P (a ! k) k" by blast
  have "(a ! k, k) \<in> set (zip a [0..<length a])"
    using k by (simp add: set_zip) (rule exI [of _ k], simp)
  with p show "list_ex (\<lambda>(x, k). P x k) (zip a [0..<length a])"
    by (auto simp: list_ex_iff)
qed

lemma hasChanged_iff:
  "hasChanged a ref \<longleftrightarrow>
     (length a \<noteq> length ref \<or> (\<exists>k < length a. strict_neq (a ! k) (js_index ref k)))"
  unfolding hasChanged_def
  using list_ex_zip_upt [of "\<lambda>x k. strict_neq x (js_index ref k)" a] by simp

subsection \<open>The execution unit\<close>



















text \<open>
  An assignment through \<open>__proto__\<close> lands on the prototype: afterwards \<open>value\<close>, which
  found nothing before, finds what was assigned.
\<close>

lemma prototype_write_example:
  "updateState (pass_through 0) ''value'' (VObj [''b'' \<mapsto> 2]) (empty_provider :: (nat, int) provider) =
     (None, empty_provider) \<and>
   fst (updateState (pass_through 0) ''value'' (VObj [''b'' \<mapsto> 2])
          (snd (updateState (pass_through 0) ''__proto__'' (VObj [''a'' \<mapsto> 1])
                  (empty_provider :: (nat, int) provider)))) = Some 0"
  by (simp add: updateState_def js_get_def inherited_def builtin_member_def inherited_names_def empty_provider_def
        pass_through_def)

section \<open>The claims\<close>

subsection \<open>Unsubscribing\<close>

text \<open>
  C1. After \<open>unsubscribe\<close> for an id, none of the three stores has an entry for that
  id, and a second call of \<open>unsubscribe\<close> leaves the three stores as they are (it only
  logs again). This holds from every provider state, so in particular for an id obtained
  from \<open>subscribe\<close> and whatever was stored under it since.
\<close>

theorem unsubscribe_removes_all:
  "state (unsubscribe i s) i = None \<and>
   availableHooks (unsubscribe i s) i = None \<and>
   argSubscriptions (unsubscribe i s) i = None \<and>
   stores (unsubscribe i (unsubscribe i s)) = stores (unsubscribe i s)"
  by (simp add: unsubscribe_def stores_def)

subsection \<open>The registry store\<close>




subsection \<open>The argument channel\<close>







subsection \<open>The consumer hook\<close>

text \<open>
  C5. A consumer hook is mounted (\<open>mount\<close>), other calls of store operations follow
  (\<open>ops1\<close>), it is unmounted (\<open>cleanup\<close>), other calls follow (\<open>ops2\<close>), the promise of
  the load settles, resolved or rejected (\<open>outcome\<close>), and other calls follow (\<open>ops3\<close>).
  Then the still-mounted flag is cleared, the continuation of the load returns the
  provider exactly as it found it (no \<open>updateState\<close>, \<open>updateArgs\<close> or \<open>registerHook\<close>),
  and \<open>availableHooks\<close> has no entry for the id of that consumer: not after the
  unmount, not after the settlement, and not later, as long as the other calls do not
  register a hook under that id themselves.
\<close>

theorem unmounted_consumer_never_registers:
  assumes others: "\<forall>x \<in> set (ops2 @ ops3). \<not> registers (fst (randomUUID c)) x"
  shows "(let (r, k, c1, s1) = mount E forceUpdate c s;
              (c2, s2) = run E ops1 (c1, s1);
              (k', s3) = cleanup k s2;
              (c4, s4) = run E ops2 (c2, s3);
              (r5, s5) = loadHook_settled E k' a outcome s4;
              (c6, s6) = run E ops3 (c4, s5)
          in id_c k = fst (randomUUID c) \<and> \<not> isMounted k' \<and>
             availableHooks s3 (id_c k) = None \<and>
             r5 = None \<and> s5 = s4 \<and>
             availableHooks s5 (id_c k) = None \<and>
             availableHooks s6 (id_c k) = None)"
proof -
  obtain r k c1 s1 where m: "mount E forceUpdate c s = (r, k, c1, s1)"
    by (cases "mount E forceUpdate c s") auto
  obtain c2 s2 where r1: "run E ops1 (c1, s1) = (c2, s2)"
    by (cases "run E ops1 (c1, s1)")
  obtain k' s3 where cl: "cleanup k s2 = (k', s3)"
    by (cases "cleanup k s2")
  obtain c4 s4 where r2: "run E ops2 (c2, s3) = (c4, s4)"
    by (cases "run E ops2 (c2, s3)")
  obtain c6 s6 where r3: "run E ops3 (c4, s4) = (c6, s6)"
    by (cases "run E ops3 (c4, s4)")
  have idk: "id_c k = fst (randomUUID c)"
    using mount_consumer [of E forceUpdate c s] m by simp
  have unm: "\<not> isMounted k'"
    using cleanup_facts(1) [of k s2] cl by simp
  have a3: "availableHooks s3 (id_c k) = None"
    using cleanup_facts(3) [of k s2] cl by simp
  have st: "loadHook_settled E k' a outcome s4 = (None, s4)"
    using settled_unmounted [OF unm] .
  have q2: "\<forall>x \<in> set ops2. \<not> registers (id_c k) x"
    and q3: "\<forall>x \<in> set ops3. \<not> registers (id_c k) x"
    using others idk by simp_all
  have a4: "availableHooks s4 (id_c k) = None"
    using run_keeps_unregistered [of "(c2, s3)" "id_c k" ops2 E] a3 q2 r2 by simp
  have a6: "availableHooks s6 (id_c k) = None"
    using run_keeps_unregistered [of "(c4, s4)" "id_c k" ops3 E] a4 q3 r3 by simp
  show ?thesis
    using idk unm a3 a4 a6 by (simp add: m r1 cl r2 st r3)
qed

theorem unmounted_consumer_never_registers_witness:
  "list_all (\<lambda>x. \<not> registers (fst (randomUUID u_crypto)) x)
     ([UpdateArgs ''u'' [JStr ''b'']] @ [Subscribe (4 :: nat), RegisterHook ''uu'' 8]) \<and>
   (let (r, k, c1, s1) = mount (pass_through JUndefined) 3 u_crypto empty_provider;
        (c2, s2) = run (pass_through JUndefined) [UpdateArgs ''u'' [JStr ''a'']] (c1, s1);
        (k', s3) = cleanup k s2;
        (c4, s4) = run (pass_through JUndefined) [UpdateArgs ''u'' [JStr ''b'']] (c2, s3);
        (r5, s5) = loadHook_settled (pass_through JUndefined) k' [JStr ''a''] (Resolved 9) s4;
        (c6, s6) = run (pass_through JUndefined) [Subscribe 4, RegisterHook ''uu'' 8] (c4, s5)
    in id_c k = ''u'' \<and> \<not> isMounted k' \<and> r5 = None \<and> s5 = s4 \<and>
       availableHooks s6 ''u'' = None \<and> availableHooks s6 ''uu'' = Some 8)"
proof -
  have h: "\<forall>x \<in> set ([UpdateArgs ''u'' [JStr ''b'']] @ [Subscribe (4 :: nat), RegisterHook ''uu'' 8]).
      \<not> registers (fst (randomUUID u_crypto)) (x :: (nat, jsval) op)"
    by (simp add: randomUUID_def u_crypto_def)
  show ?thesis
    using h unmounted_consumer_never_registers [OF h, of "pass_through JUndefined" 3 empty_provider
        "[UpdateArgs ''u'' [JStr ''a'']]" "[JStr ''a'']" "Resolved 9"]
    by (simp add: js_get_def inherited_def builtin_member_def inherited_names_def register_listener_def mount_def subscribe_def randomUUID_def u_crypto_def empty_provider_def
          updateState_def updateArgs_def cleanup_def unsubscribe_def loadHook_settled_def
          registerHook_def pass_through_def split: prod.splits)
qed

text \<open>
  C6. In a render whose argument sequence has the length of the last forwarded sequence
  and at every position an element identical to the one forwarded (\<open>===\<close>, so also for
  a newly built array), \<open>updateArgs\<close> is not called and the remembered sequence stays.
  When some position holds a different element, \<open>updateArgs\<close> is called exactly once,
  with the new sequence, which is then the remembered one.
\<close>

theorem forward_args_shallow_compare:
  "(length a = length ref \<and> (\<forall>k < length a. \<not> strict_neq (a ! k) (ref ! k)) \<longrightarrow>
      forward_args E i a ref s = (ref, [], s)) \<and>
   ((\<exists>k. k < length a \<and> k < length ref \<and> strict_neq (a ! k) (ref ! k)) \<longrightarrow>
      forward_args E i a ref s = (a, [a], snd (updateArgs E i a s)))"
  by (auto simp: forward_args_def hasChanged_iff js_index_def)

theorem forward_args_shallow_compare_witness:
  "length [JNum 1, JNum 2] = length [JNum 1, JNum 2] \<and>
   list_all2 (\<lambda>x y. \<not> strict_neq x y) [JNum 1, JNum 2] [JNum 1, JNum 2] \<and>
   forward_args (pass_through JUndefined) ''u'' [JNum 1, JNum 2] [JNum 1, JNum 2] one_consumer =
     ([JNum 1, JNum 2], [], one_consumer) \<and>
   (\<exists>k. k < length [JNum 1, JNum 3] \<and> k < length [JNum 1, JNum 2] \<and>
        strict_neq ([JNum 1, JNum 3] ! k) ([JNum 1, JNum 2] ! k)) \<and>
   forward_args (pass_through JUndefined) ''u'' [JNum 1, JNum 3] [JNum 1, JNum 2] one_consumer =
     ([JNum 1, JNum 3], [[JNum 1, JNum 3]],
      snd (updateArgs (pass_through JUndefined) ''u'' [JNum 1, JNum 3] one_consumer))"
proof -
  have same: "length [JNum 1, JNum 2] = length [JNum 1, JNum 2] \<and>
      (\<forall>k < length [JNum 1, JNum 2]. \<not> strict_neq ([JNum 1, JNum 2] ! k) ([JNum 1, JNum 2] ! k))"
    by (simp add: strict_neq_def less_Suc_eq)
  have same2: "list_all2 (\<lambda>x y. \<not> strict_neq x y) [JNum 1, JNum 2] [JNum 1, JNum 2]"
    by (simp add: strict_neq_def)
  have diff: "\<exists>k. k < length [JNum 1, JNum 3] \<and> k < length [JNum 1, JNum 2] \<and>
      strict_neq ([JNum 1, JNum 3] ! k) ([JNum 1, JNum 2] ! k)"
    by (rule exI [of _ 1]) (simp add: strict_neq_def)
  show ?thesis
    using same same2 diff
      forward_args_shallow_compare [of "[JNum 1, JNum 2]" "[JNum 1, JNum 2]"
        "pass_through JUndefined" "''u''" one_consumer]
      forward_args_shallow_compare [of "[JNum 1, JNum 3]" "[JNum 1, JNum 2]"
        "pass_through JUndefined" "''u''" one_consumer]
    by simp
qed

subsection \<open>The execution unit\<close>



subsection \<open>Stale argument updates\<close>




subsection \<open>Subscribing\<close>

text \<open>
  C9, as it is stated, fails twice. The value \<open>subscribe\<close> stores is the number \<open>0\<close>,
  which is what \<open>getState\<close> returns right after, and not an object without fields. And
  \<open>subscribe\<close> takes the id the generator returns without comparing it with the ids
  taken before: when the generator returns \<open>u\<close> a second time, the second consumer
  gets the id of the first, whose entry is replaced.
\<close>

theorem subscribe_value_counterexample:
  "getState ''u'' (one_consumer :: (nat, int) provider) = Some (VNum 0) \<and>
   getState ''u'' (one_consumer :: (nat, int) provider) \<noteq> Some (VObj Map.empty) \<and>
   fst (subscribe (0 :: nat) stuck_crypto (empty_provider :: (nat, int) provider)) = ''u'' \<and>
   fst (subscribe (1 :: nat) (fst (snd (subscribe (0 :: nat) stuck_crypto
                                           (empty_provider :: (nat, int) provider))))
          (snd (snd (subscribe (0 :: nat) stuck_crypto
                       (empty_provider :: (nat, int) provider))))) = ''u'' \<and>
   state (snd (snd (subscribe (1 :: nat)
                      (fst (snd (subscribe (0 :: nat) stuck_crypto
                                   (empty_provider :: (nat, int) provider))))
                      (snd (snd (subscribe (0 :: nat) stuck_crypto
                                   (empty_provider :: (nat, int) provider))))))) =
     [''u'' \<mapsto> \<lparr>id_e = ''u'', value_e = VNum 0, notify = 1\<rparr>]"
  by (simp add: getState_def one_consumer_def subscribe_def randomUUID_def u_crypto_def
        stuck_crypto_def empty_provider_def)

text \<open>
  C9, amended. The id \<open>subscribe\<close> returns is the next draw of the generator, taken as
  it comes: it is one of the ids issued before exactly when the generator has returned
  that value before, so with a generator that never repeats a draw it is none of them.
  Under that id \<open>subscribe\<close> stores an entry with the given notify callback and the
  number \<open>0\<close> as value. Right after \<open>subscribe\<close>, \<open>getState\<close> returns that \<open>0\<close>; it has
  no fields, and the first \<open>updateState\<close> for the id replaces it by the object that has
  exactly the fields of the patch.
\<close>

theorem subscribe_takes_draw:
  "fst (subscribe n c s) = draws c (drawn c) \<and>
   issued (fst (snd (subscribe n c s))) = insert (fst (subscribe n c s)) (issued c) \<and>
   (fst (subscribe n c s) \<in> issued c) = (\<exists>k < drawn c. draws c k = draws c (drawn c)) \<and>
   (inj (draws c) \<longrightarrow> fst (subscribe n c s) \<notin> issued c) \<and>
   state (snd (snd (subscribe n c s))) =
     (state s)(fst (subscribe n c s) \<mapsto>
        \<lparr>id_e = fst (subscribe n c s), value_e = VNum 0, notify = n\<rparr>) \<and>
   getState (fst (subscribe n c s)) (snd (snd (subscribe n c s))) = Some (VNum 0) \<and>
   map_option spread (getState (fst (subscribe n c s)) (snd (snd (subscribe n c s)))) =
     Some Map.empty \<and>
   getState (fst (subscribe n c s))
       (snd (updateState E (fst (subscribe n c s)) p (snd (snd (subscribe n c s))))) =
     Some (VObj (spread p))"
proof -
  have i: "fst (subscribe n c s) = draws c (drawn c)"
    by (simp add: subscribe_def randomUUID_def)
  have st: "state (snd (snd (subscribe n c s))) =
      (state s)(draws c (drawn c) \<mapsto> \<lparr>id_e = draws c (drawn c), value_e = VNum 0, notify = n\<rparr>)"
    by (simp add: subscribe_def randomUUID_def)
  have iss: "issued (fst (snd (subscribe n c s))) = insert (draws c (drawn c)) (issued c)"
    by (simp add: subscribe_def randomUUID_def issued_def lessThan_Suc)
  have rep: "(draws c (drawn c) \<in> issued c) = (\<exists>k < drawn c. draws c k = draws c (drawn c))"
  proof
    assume "draws c (drawn c) \<in> issued c"
    then obtain k where "k < drawn c" and "draws c (drawn c) = draws c k"
      by (auto simp: issued_def)
    then have "k < drawn c \<and> draws c k = draws c (drawn c)" by simp
    then show "\<exists>k < drawn c. draws c k = draws c (drawn c)" by blast
  next
    assume "\<exists>k < drawn c. draws c k = draws c (drawn c)"
    then obtain k where k: "k < drawn c" and e: "draws c k = draws c (drawn c)" by blast
    have "draws c k \<in> draws c ` {..<drawn c}" using k by simp
    then show "draws c (drawn c) \<in> issued c" using e by (simp add: issued_def)
  qed
  have fresh: "inj (draws c) \<longrightarrow> draws c (drawn c) \<notin> issued c"
    unfolding rep by (auto simp: inj_def)
  have g: "getState (draws c (drawn c)) (snd (snd (subscribe n c s))) = Some (VNum 0)"
    by (simp add: getState_def st)
  have u: "getState (draws c (drawn c))
       (snd (updateState E (draws c (drawn c)) p (snd (snd (subscribe n c s))))) =
     Some (VObj (spread p))"
    by (simp add: getState_updateState st)
  show ?thesis
    unfolding i using st iss rep fresh g u by simp
qed

theorem subscribe_takes_draw_witness:
  "inj (draws (snd (randomUUID u_crypto))) \<and>
   issued (snd (randomUUID u_crypto)) = {''u''} \<and>
   fst (subscribe (0 :: nat) (snd (randomUUID u_crypto)) (one_consumer :: (nat, int) provider)) = ''uu'' \<and>
   ''uu'' \<notin> issued (snd (randomUUID u_crypto)) \<and>
   getState ''uu'' (snd (snd (subscribe (0 :: nat) (snd (randomUUID u_crypto))
                                (one_consumer :: (nat, int) provider)))) = Some (VNum 0) \<and>
   getState ''uu''
       (snd (updateState (pass_through 0) ''uu'' (VObj [''a'' \<mapsto> 1])
               (snd (snd (subscribe (0 :: nat) (snd (randomUUID u_crypto))
                            (one_consumer :: (nat, int) provider)))))) =
     Some (VObj [''a'' \<mapsto> 1])"
proof -
  have i: "inj (draws (snd (randomUUID u_crypto)))"
    by (simp add: randomUUID_def u_crypto_def inj_def)
  note th = subscribe_takes_draw [of "0 :: nat" "snd (randomUUID u_crypto)"
        "one_consumer :: (nat, int) provider" "pass_through 0" "VObj [''a'' \<mapsto> (1 :: int)]"]
  show ?thesis
    using i th
    by (simp add: subscribe_def randomUUID_def u_crypto_def one_consumer_def empty_provider_def
          issued_def lessThan_Suc getState_def updateState_def js_get_def pass_through_def)
qed

subsection \<open>Invariants over sequences of operations\<close>

text \<open>
  C10, as it is stated, fails: \<open>registerHook\<close> does not look at the registry store, so
  one call of it on the empty provider gives an \<open>availableHooks\<close> entry for an id
  without StateEntry.
\<close>

theorem registerHook_without_entry_counterexample:
  "availableHooks (snd (run (pass_through (0 :: int)) [RegisterHook ''u'' 9]
                          (u_crypto, empty_provider))) ''u'' = Some 9 \<and>
   state (snd (run (pass_through (0 :: int)) [RegisterHook ''u'' 9]
                 (u_crypto, empty_provider))) ''u'' = None \<and>
   \<not> dom (availableHooks (snd (run (pass_through (0 :: int)) [RegisterHook ''u'' 9]
                                  (u_crypto, empty_provider))))
       \<subseteq> dom (state (snd (run (pass_through (0 :: int)) [RegisterHook ''u'' 9]
                               (u_crypto, empty_provider))))"
  by (simp add: registerHook_def empty_provider_def)

text \<open>
  C10, amended. After any sequence of store operations from the empty provider, two
  StateEntries with the same id are the same entry and two ArgSubscriptions with the
  same id are the same ArgSubscription (and \<open>availableHooks\<close>, a map, has at most one
  hook per id). When in addition every \<open>registerHook\<close> of the sequence is called for an
  id that has a StateEntry at that moment, every id with an \<open>availableHooks\<close> entry has
  a StateEntry.
\<close>

theorem reachable_invariants:
  "(\<forall>e e'. e \<in> ran (state (snd (run E xs (c, empty_provider)))) \<and>
            e' \<in> ran (state (snd (run E xs (c, empty_provider)))) \<and> id_e e = id_e e' \<longrightarrow> e = e') \<and>
   (\<forall>b b'. b \<in> ran (argSubscriptions (snd (run E xs (c, empty_provider)))) \<and>
            b' \<in> ran (argSubscriptions (snd (run E xs (c, empty_provider)))) \<and> id_a b = id_a b' \<longrightarrow> b = b') \<and>
   (guarded E xs (c, empty_provider) \<longrightarrow>
      dom (availableHooks (snd (run E xs (c, empty_provider)))) \<subseteq>
      dom (state (snd (run E xs (c, empty_provider)))))"
proof -
  have k0: "keyed (snd (c, empty_provider :: ('a, 'b) provider))"
    by (simp add: keyed_def empty_provider_def)
  have h0: "hooks_have_entry (snd (c, empty_provider :: ('a, 'b) provider))"
    by (simp add: hooks_have_entry_def empty_provider_def)
  have k: "keyed (snd (run E xs (c, empty_provider)))"
    using run_keyed [OF k0] .
  have h: "guarded E xs (c, empty_provider) \<Longrightarrow> hooks_have_entry (snd (run E xs (c, empty_provider)))"
    using run_hooks_have_entry [OF h0] .
  show ?thesis
    using keyed_unique_state [OF k] keyed_unique_args [OF k] h
    unfolding hooks_have_entry_def by blast
qed

theorem reachable_invariants_witness:
  "guarded (pass_through 0)
     [Subscribe 0, UpdateArgs ''u'' [7 :: int], RegisterHook ''u'' 9, SubscribeToArgs ''u'' 1]
     (u_crypto, empty_provider) \<and>
   dom (availableHooks (snd (run (pass_through 0)
     [Subscribe 0, UpdateArgs ''u'' [7 :: int], RegisterHook ''u'' 9, SubscribeToArgs ''u'' 1]
     (u_crypto, empty_provider)))) = {''u''} \<and>
   dom (state (snd (run (pass_through 0)
     [Subscribe 0, UpdateArgs ''u'' [7 :: int], RegisterHook ''u'' 9, SubscribeToArgs ''u'' 1]
     (u_crypto, empty_provider)))) = {''u''} \<and>
   ran (argSubscriptions (snd (run (pass_through 0)
     [Subscribe 0, UpdateArgs ''u'' [7 :: int], RegisterHook ''u'' 9, SubscribeToArgs ''u'' 1]
     (u_crypto, empty_provider)))) = {\<lparr>id_a = ''u'', args = [7], argNotifiers = [1]\<rparr>}"
  using reachable_invariants [of "pass_through 0"
     "[Subscribe 0, UpdateArgs ''u'' [7 :: int], RegisterHook ''u'' 9, SubscribeToArgs ''u'' 1]"
     u_crypto]
  by (simp add: js_get_def inherited_def builtin_member_def inherited_names_def register_listener_def pass_through_def subscribe_def randomUUID_def u_crypto_def
        empty_provider_def updateArgs_def registerHook_def subscribeToArgs_def set_add_def)

end
